theory Spec2Isabelle
  imports Complex_Main "HOL-Library.Sublist"
begin

section \<open>The bouncing-balls program (BALLS.py)\<close>

text \<open>
  The program keeps a list of balls and a debounce timestamp as module globals, moves
  every ball once per frame, and reads four buttons. The embedding below follows the
  source function by function.

  Numbers: Python \<open>int\<close> is \<open>int\<close>. Python \<open>float\<close> is idealised as \<open>real\<close>:
  additions, multiplications and comparisons are exact, rounding is not modelled.
  The literals \<open>0.95\<close> and \<open>0.2\<close> are the rationals \<open>95/100\<close> and \<open>2/10\<close>.

  The display (\<open>WIDTH\<close>, \<open>HEIGHT\<close> from \<open>display.get_bounds()\<close>, and
  \<open>display.create_pen\<close>), the buttons, the clock and the random generator are
  outside the program; they are parameters and inputs of the functions below.
\<close>

subsection \<open>Errors\<close>

datatype py_error = IndexError

subsection \<open>The palette (\<open>generate_pens\<close>)\<close>

definition colors :: "(nat \<times> nat \<times> nat) list" where
  "colors =
     [(102, 0, 153), (147, 112, 219), (180, 150, 255),
      (255, 0, 255), (75, 0, 130), (85, 40, 115)]"

text \<open>The loop appends one pen per colour to the global list it is given.\<close>

definition generate_pens ::
    "(nat \<Rightarrow> nat \<Rightarrow> nat \<Rightarrow> 'pen) \<Rightarrow> 'pen list \<Rightarrow> 'pen list" where
  "generate_pens create_pen pens0 =
     foldl (\<lambda>pens (r, g, b). pens @ [create_pen r g b]) pens0 colors"

text \<open>\<open>BALL_PENS = []\<close> followed by the module-level call \<open>generate_pens()\<close>.\<close>

definition BALL_PENS :: "(nat \<Rightarrow> nat \<Rightarrow> nat \<Rightarrow> 'pen) \<Rightarrow> 'pen list" where
  "BALL_PENS create_pen = generate_pens create_pen []"

subsection \<open>The class \<open>Ball\<close>\<close>

record 'pen ball =
  x :: real
  y :: real
  radius :: int
  vx :: real
  vy :: real
  pen :: 'pen
  dampening :: real

text \<open>\<open>Ball.__init__\<close>: the six arguments are stored, the dampening is the constant 0.95.\<close>

definition Ball_init ::
    "real \<Rightarrow> real \<Rightarrow> int \<Rightarrow> real \<Rightarrow> real \<Rightarrow> 'pen \<Rightarrow> 'pen ball" where
  "Ball_init x0 y0 radius0 vx0 vy0 pen0 =
     \<lparr>x = x0, y = y0, radius = radius0, vx = vx0, vy = vy0, pen = pen0,
      dampening = 0.95\<rparr>"

text \<open>\<open>Ball.update\<close>, in its three blocks: apply velocity, left/right walls, top/bottom walls.\<close>

definition apply_velocity :: "'pen ball \<Rightarrow> 'pen ball" where
  "apply_velocity b = (let b1 = b\<lparr>x := x b + vx b\<rparr> in b1\<lparr>y := y b1 + vy b1\<rparr>)"

definition left_right_walls :: "int \<Rightarrow> 'pen ball \<Rightarrow> 'pen ball" where
  "left_right_walls WIDTH b =
     (if x b - of_int (radius b) < 0 \<or> x b + of_int (radius b) > of_int WIDTH then
        (let b1 = b\<lparr>vx := vx b * (- dampening b)\<rparr> in
         if x b1 - of_int (radius b1) < 0 then b1\<lparr>x := of_int (radius b1)\<rparr>
         else b1\<lparr>x := of_int (WIDTH - radius b1)\<rparr>)
      else b)"

definition top_bottom_walls :: "int \<Rightarrow> 'pen ball \<Rightarrow> 'pen ball" where
  "top_bottom_walls HEIGHT b =
     (if y b - of_int (radius b) < 0 \<or> y b + of_int (radius b) > of_int HEIGHT then
        (let b1 = b\<lparr>vy := vy b * (- dampening b)\<rparr> in
         if y b1 - of_int (radius b1) < 0 then b1\<lparr>y := of_int (radius b1)\<rparr>
         else b1\<lparr>y := of_int (HEIGHT - radius b1)\<rparr>)
      else b)"

definition update :: "int \<Rightarrow> int \<Rightarrow> 'pen ball \<Rightarrow> 'pen ball" where
  "update WIDTH HEIGHT b =
     top_bottom_walls HEIGHT (left_right_walls WIDTH (apply_velocity b))"

text \<open>
  The same step with the two wall blocks exchanged (top/bottom first). The source has
  no such function; it is the variant the specification compares \<open>update\<close> with.
\<close>

definition update_y_before_x :: "int \<Rightarrow> int \<Rightarrow> 'pen ball \<Rightarrow> 'pen ball" where
  "update_y_before_x WIDTH HEIGHT b =
     left_right_walls WIDTH (top_bottom_walls HEIGHT (apply_velocity b))"

subsection \<open>Game state and the random generator\<close>

record 'pen game =
  balls :: "'pen ball list"
  last_press_time :: real

definition DEBOUNCE_TIME :: real where
  "DEBOUNCE_TIME = 0.2"

text \<open>
  One call of \<open>add_ball\<close> asks the generator four times: \<open>randint(5, 15)\<close>,
  \<open>uniform(-4, 4)\<close> twice, and \<open>choice(BALL_PENS)\<close>, which picks an index of the list.
  The four answers are an input of \<open>add_ball\<close>.
\<close>

record draw =
  rand_radius :: int
  rand_vx :: real
  rand_vy :: real
  rand_pen :: nat

text \<open>
  What the library promises of the answers: \<open>randint(a, b)\<close> is an integer of \<open>[a, b]\<close>,
  \<open>uniform(a, b)\<close> a float of \<open>[a, b]\<close>, \<open>choice(seq)\<close> an element of \<open>seq\<close>.
\<close>

definition random_contract :: "'pen list \<Rightarrow> draw \<Rightarrow> bool" where
  "random_contract pens d =
     (5 \<le> rand_radius d \<and> rand_radius d \<le> 15 \<and>
      - 4 \<le> rand_vx d \<and> rand_vx d \<le> 4 \<and>
      - 4 \<le> rand_vy d \<and> rand_vy d \<le> 4 \<and>
      rand_pen d < length pens)"

text \<open>The ball that \<open>add_ball\<close> builds from one draw.\<close>

definition new_ball ::
    "int \<Rightarrow> int \<Rightarrow> (nat \<Rightarrow> nat \<Rightarrow> nat \<Rightarrow> 'pen) \<Rightarrow> draw \<Rightarrow> 'pen ball" where
  "new_ball WIDTH HEIGHT create_pen d =
     (let radius0 = rand_radius d;
          vx0 = rand_vx d;
          vx1 = (if \<bar>vx0\<bar> < 1 then (if vx0 \<ge> 0 then 1 else - 1) else vx0);
          vy0 = rand_vy d;
          vy1 = (if \<bar>vy0\<bar> < 1 then (if vy0 \<ge> 0 then 1 else - 1) else vy0);
          x0 = WIDTH div 2;
          y0 = HEIGHT div 2;
          pen0 = BALL_PENS create_pen ! rand_pen d
      in Ball_init (of_int x0) (of_int y0) radius0 vx1 vy1 pen0)"

definition add_ball ::
    "int \<Rightarrow> int \<Rightarrow> (nat \<Rightarrow> nat \<Rightarrow> nat \<Rightarrow> 'pen) \<Rightarrow> draw \<Rightarrow> 'pen game \<Rightarrow> 'pen game" where
  "add_ball WIDTH HEIGHT create_pen d g =
     g\<lparr>balls := balls g @ [new_ball WIDTH HEIGHT create_pen d]\<rparr>"

text \<open>\<open>list.pop()\<close>: raises \<open>IndexError\<close> on an empty list, else removes and returns the last item.\<close>

definition pop :: "'a list \<Rightarrow> py_error + ('a \<times> 'a list)" where
  "pop xs = (if xs = [] then Inl IndexError else Inr (last xs, butlast xs))"

definition remove_ball :: "'pen game \<Rightarrow> py_error + 'pen game" where
  "remove_ball g =
     (if balls g \<noteq> [] then
        (case pop (balls g) of
           Inl e \<Rightarrow> Inl e
         | Inr (_, rest) \<Rightarrow> Inr (g\<lparr>balls := rest\<rparr>))
      else Inr g)"

definition remove_all_balls :: "'pen game \<Rightarrow> 'pen game" where
  "remove_all_balls g = g\<lparr>balls := []\<rparr>"

text \<open>
  \<open>for _ in range(count): add_ball()\<close>. The generator's answers for the \<open>i\<close>-th
  pass are \<open>rng i\<close>; \<open>range(count)\<close> is empty for a negative \<open>count\<close>.
\<close>

definition add_multiple_balls ::
    "int \<Rightarrow> int \<Rightarrow> (nat \<Rightarrow> nat \<Rightarrow> nat \<Rightarrow> 'pen) \<Rightarrow> int \<Rightarrow> (nat \<Rightarrow> draw) \<Rightarrow> 'pen game \<Rightarrow> 'pen game" where
  "add_multiple_balls WIDTH HEIGHT create_pen count rng g =
     fold (\<lambda>i. add_ball WIDTH HEIGHT create_pen (rng i)) [0..<nat count] g"

text \<open>The module-level state: no balls, timestamp 0.0, then \<open>add_multiple_balls(3)\<close>.\<close>

definition initial_game ::
    "int \<Rightarrow> int \<Rightarrow> (nat \<Rightarrow> nat \<Rightarrow> nat \<Rightarrow> 'pen) \<Rightarrow> (nat \<Rightarrow> draw) \<Rightarrow> 'pen game" where
  "initial_game WIDTH HEIGHT create_pen rng =
     add_multiple_balls WIDTH HEIGHT create_pen 3 rng \<lparr>balls = [], last_press_time = 0\<rparr>"

subsection \<open>One pass of the loop of \<open>run_game\<close>\<close>

record buttons =
  button_up :: bool
  button_down :: bool
  button_left :: bool
  button_right :: bool

text \<open>
  What one pass reads from outside: the millisecond counter \<open>time.ticks_ms()\<close>, the
  four \<open>is_pressed\<close> flags, and the generator's answers.
\<close>

record frame_input =
  ticks_ms :: int
  pressed :: buttons
  rnd :: "nat \<Rightarrow> draw"

text \<open>Step 1 of the loop body, "Input Handling".\<close>

definition input_handling ::
    "int \<Rightarrow> int \<Rightarrow> (nat \<Rightarrow> nat \<Rightarrow> nat \<Rightarrow> 'pen) \<Rightarrow> frame_input \<Rightarrow> 'pen game \<Rightarrow> py_error + 'pen game" where
  "input_handling WIDTH HEIGHT create_pen inp g =
     (let current_time = of_int (ticks_ms inp) / 1000 in
      if current_time - last_press_time g > DEBOUNCE_TIME then
        if button_up (pressed inp) then
          Inr ((add_ball WIDTH HEIGHT create_pen (rnd inp 0) g)
                 \<lparr>last_press_time := current_time\<rparr>)
        else if button_down (pressed inp) then
          (case remove_ball g of
             Inl e \<Rightarrow> Inl e
           | Inr g1 \<Rightarrow> Inr (g1\<lparr>last_press_time := current_time\<rparr>))
        else if button_left (pressed inp) then
          Inr ((remove_all_balls g)\<lparr>last_press_time := current_time\<rparr>)
        else if button_right (pressed inp) then
          Inr ((add_multiple_balls WIDTH HEIGHT create_pen 100 (rnd inp) g)
                 \<lparr>last_press_time := current_time\<rparr>)
        else Inr g
      else Inr g)"

text \<open>
  The whole loop body, as far as it changes the program's state: input handling, then
  \<open>ball.update()\<close> for every ball in list order. Drawing goes to the display only.
\<close>

definition loop_body ::
    "int \<Rightarrow> int \<Rightarrow> (nat \<Rightarrow> nat \<Rightarrow> nat \<Rightarrow> 'pen) \<Rightarrow> frame_input \<Rightarrow> 'pen game \<Rightarrow> py_error + 'pen game" where
  "loop_body WIDTH HEIGHT create_pen inp g =
     (case input_handling WIDTH HEIGHT create_pen inp g of
        Inl e \<Rightarrow> Inl e
      | Inr g1 \<Rightarrow> Inr (g1\<lparr>balls := map (update WIDTH HEIGHT) (balls g1)\<rparr>))"

subsection \<open>The controller's policy, in the words of the specification\<close>

text \<open>
  The specification describes the input step through four commands polled in a fixed
  priority order. These definitions follow its words; the theorems below compare them
  with \<open>input_handling\<close>.
\<close>

datatype command = AddOne | RemoveOne | ClearAll | AddHundred

definition priority_order :: "command list" where
  "priority_order = [AddOne, RemoveOne, ClearAll, AddHundred]"

fun signal :: "buttons \<Rightarrow> command \<Rightarrow> bool" where
  "signal bt AddOne = button_up bt"
| "signal bt RemoveOne = button_down bt"
| "signal bt ClearAll = button_left bt"
| "signal bt AddHundred = button_right bt"

definition first_active :: "buttons \<Rightarrow> command option" where
  "first_active bt = find (signal bt) priority_order"

fun execute ::
    "int \<Rightarrow> int \<Rightarrow> (nat \<Rightarrow> nat \<Rightarrow> nat \<Rightarrow> 'pen) \<Rightarrow> (nat \<Rightarrow> draw) \<Rightarrow> command \<Rightarrow> 'pen game \<Rightarrow> py_error + 'pen game" where
  "execute WIDTH HEIGHT create_pen rng AddOne g =
     Inr (add_ball WIDTH HEIGHT create_pen (rng 0) g)"
| "execute WIDTH HEIGHT create_pen rng RemoveOne g = remove_ball g"
| "execute WIDTH HEIGHT create_pen rng ClearAll g = Inr (remove_all_balls g)"
| "execute WIDTH HEIGHT create_pen rng AddHundred g =
     Inr (add_multiple_balls WIDTH HEIGHT create_pen 100 rng g)"

text \<open>The time since the last accepted command, as the loop computes it.\<close>

definition elapsed :: "frame_input \<Rightarrow> 'pen game \<Rightarrow> real" where
  "elapsed inp g = of_int (ticks_ms inp) / 1000 - last_press_time g"

text \<open>\<open>remove_ball()\<close> called \<open>k\<close> times in a row, stopping at the first error.\<close>

fun remove_ball_times :: "nat \<Rightarrow> 'pen game \<Rightarrow> py_error + 'pen game" where
  "remove_ball_times 0 g = Inr g"
| "remove_ball_times (Suc k) g =
     (case remove_ball g of Inl e \<Rightarrow> Inl e | Inr g1 \<Rightarrow> remove_ball_times k g1)"

subsection \<open>Concrete inputs\<close>

text \<open>
  A display of 320 by 240 pixels whose pens are the colour triples themselves, a
  generator that always answers the same, and a frame in which the counter reads 200 ms
  while the UP button is held.
\<close>

definition rgb_pen :: "nat \<Rightarrow> nat \<Rightarrow> nat \<Rightarrow> nat \<times> nat \<times> nat" where
  "rgb_pen r g b = (r, g, b)"

definition slow_draw :: draw where
  "slow_draw = \<lparr>rand_radius = 15, rand_vx = 1 / 2, rand_vy = - 1 / 4, rand_pen = 0\<rparr>"

definition steady_rng :: "nat \<Rightarrow> draw" where
  "steady_rng i = slow_draw"

definition boundary_input :: frame_input where
  "boundary_input =
     \<lparr>ticks_ms = 200,
      pressed = \<lparr>button_up = True, button_down = False, button_left = False,
                 button_right = False\<rparr>,
      rnd = steady_rng\<rparr>"

definition late_input :: frame_input where
  "late_input =
     \<lparr>ticks_ms = 250,
      pressed = \<lparr>button_up = True, button_down = True, button_left = False,
                 button_right = True\<rparr>,
      rnd = steady_rng\<rparr>"

definition second_input :: frame_input where
  "second_input =
     \<lparr>ticks_ms = 400,
      pressed = \<lparr>button_up = False, button_down = True, button_left = False,
                 button_right = False\<rparr>,
      rnd = steady_rng\<rparr>"

definition start_game :: "(nat \<times> nat \<times> nat) game" where
  "start_game = initial_game 320 240 rgb_pen steady_rng"

definition left_edge_ball :: "unit ball" where
  "left_edge_ball = Ball_init 6 100 5 (- 2) 1 ()"

definition right_edge_ball :: "unit ball" where
  "right_edge_ball = Ball_init 318 100 5 4 1 ()"


section \<open>Properties\<close>

subsection \<open>The palette\<close>

lemma foldl_append_pens:
  "foldl (\<lambda>pens (r, g, b). pens @ [create_pen r g b]) pens0 cs =
     pens0 @ map (\<lambda>(r, g, b). create_pen r g b) cs"
  by (induction cs arbitrary: pens0) auto

lemma BALL_PENS_eq: "BALL_PENS create_pen = map (\<lambda>(r, g, b). create_pen r g b) colors"
  by (simp add: BALL_PENS_def generate_pens_def foldl_append_pens)

lemma length_BALL_PENS: "length (BALL_PENS create_pen) = 6"
  by (simp add: BALL_PENS_eq colors_def)

subsection \<open>What \<open>update\<close> writes\<close>

text \<open>Each wall block, as the fields it assigns.\<close>

lemma left_right_walls_fields:
  "left_right_walls WIDTH b =
     b\<lparr>vx := (if x b - of_int (radius b) < 0 \<or> x b + of_int (radius b) > of_int WIDTH
               then vx b * (- dampening b) else vx b),
       x := (if x b - of_int (radius b) < 0 then of_int (radius b)
             else if x b + of_int (radius b) > of_int WIDTH then of_int (WIDTH - radius b)
             else x b)\<rparr>"
  by (simp add: left_right_walls_def Let_def)

lemma top_bottom_walls_fields:
  "top_bottom_walls HEIGHT b =
     b\<lparr>vy := (if y b - of_int (radius b) < 0 \<or> y b + of_int (radius b) > of_int HEIGHT
               then vy b * (- dampening b) else vy b),
       y := (if y b - of_int (radius b) < 0 then of_int (radius b)
             else if y b + of_int (radius b) > of_int HEIGHT then of_int (HEIGHT - radius b)
             else y b)\<rparr>"
  by (simp add: top_bottom_walls_def Let_def)

lemma apply_velocity_fields: "apply_velocity b = b\<lparr>x := x b + vx b, y := y b + vy b\<rparr>"
  by (simp add: apply_velocity_def Let_def)

lemma radius_update: "radius (update WIDTH HEIGHT b) = radius b"
  by (simp add: update_def left_right_walls_fields top_bottom_walls_fields apply_velocity_fields)

lemma pen_update: "pen (update WIDTH HEIGHT b) = pen b"
  by (simp add: update_def left_right_walls_fields top_bottom_walls_fields apply_velocity_fields)

lemma dampening_update: "dampening (update WIDTH HEIGHT b) = dampening b"
  by (simp add: update_def left_right_walls_fields top_bottom_walls_fields apply_velocity_fields)

lemma x_update: "x (update WIDTH HEIGHT b) = x (left_right_walls WIDTH (apply_velocity b))"
  by (simp add: update_def top_bottom_walls_fields)

lemma vx_update: "vx (update WIDTH HEIGHT b) = vx (left_right_walls WIDTH (apply_velocity b))"
  by (simp add: update_def top_bottom_walls_fields)

lemma radius_update_iter: "radius ((update WIDTH HEIGHT ^^ n) b) = radius b"
  by (induction n) (simp_all add: radius_update)

lemma dampening_update_iter: "dampening ((update WIDTH HEIGHT ^^ n) b) = dampening b"
  by (induction n) (simp_all add: dampening_update)

lemma dampening_Ball_init: "dampening (Ball_init x0 y0 radius0 vx0 vy0 pen0) = 0.95"
  by (simp add: Ball_init_def)

lemma dampening_new_ball: "dampening (new_ball WIDTH HEIGHT create_pen d) = 0.95"
  by (simp add: new_ball_def Let_def dampening_Ball_init)

text \<open>
  A ball record has the dampening 0.95 exactly when it is a value the constructor can
  build; \<open>update\<close> keeps the dampening, so this holds of every ball of the program.
\<close>

lemma dampening_iff_Ball_init:
  "(dampening (b :: 'pen ball) = 0.95) =
     (\<exists>x0 y0 radius0 vx0 vy0 pen0. b = Ball_init x0 y0 radius0 vx0 vy0 pen0)"
proof
  assume "dampening b = 0.95"
  then have "b = Ball_init (x b) (y b) (radius b) (vx b) (vy b) (pen b)"
    by (cases b) (simp add: Ball_init_def)
  then show "\<exists>x0 y0 radius0 vx0 vy0 pen0. b = Ball_init x0 y0 radius0 vx0 vy0 pen0"
    by blast
next
  assume "\<exists>x0 y0 radius0 vx0 vy0 pen0. b = Ball_init x0 y0 radius0 vx0 vy0 pen0"
  then show "dampening b = 0.95"
    by (auto simp: Ball_init_def)
qed

subsection \<open>Bounds on the position\<close>

lemma x_left_right_walls_bounds:
  assumes "2 * radius b \<le> WIDTH"
  shows "of_int (radius b) \<le> x (left_right_walls WIDTH b) \<and>
         x (left_right_walls WIDTH b) \<le> of_int (WIDTH - radius b)"
proof -
  from assms have "(of_int (2 * radius b) :: real) \<le> of_int WIDTH"
    by (simp only: of_int_le_iff)
  then show ?thesis
    by (simp add: left_right_walls_def Let_def)
qed

lemma y_top_bottom_walls_bounds:
  assumes "2 * radius b \<le> HEIGHT"
  shows "of_int (radius b) \<le> y (top_bottom_walls HEIGHT b) \<and>
         y (top_bottom_walls HEIGHT b) \<le> of_int (HEIGHT - radius b)"
proof -
  from assms have "(of_int (2 * radius b) :: real) \<le> of_int HEIGHT"
    by (simp only: of_int_le_iff)
  then show ?thesis
    by (simp add: top_bottom_walls_def Let_def)
qed

lemma update_in_bounds:
  assumes "2 * radius b \<le> WIDTH" and "2 * radius b \<le> HEIGHT"
  shows "of_int (radius b) \<le> x (update WIDTH HEIGHT b) \<and>
         x (update WIDTH HEIGHT b) \<le> of_int (WIDTH - radius b) \<and>
         of_int (radius b) \<le> y (update WIDTH HEIGHT b) \<and>
         y (update WIDTH HEIGHT b) \<le> of_int (HEIGHT - radius b)"
proof -
  let ?b1 = "apply_velocity b"
  let ?b2 = "left_right_walls WIDTH ?b1"
  have r1: "radius ?b1 = radius b"
    by (simp add: apply_velocity_fields)
  have r2: "radius ?b2 = radius b"
    by (simp add: left_right_walls_fields r1)
  have "of_int (radius ?b1) \<le> x ?b2 \<and> x ?b2 \<le> of_int (WIDTH - radius ?b1)"
    by (rule x_left_right_walls_bounds) (simp add: r1 assms)
  moreover have "of_int (radius ?b2) \<le> y (top_bottom_walls HEIGHT ?b2) \<and>
      y (top_bottom_walls HEIGHT ?b2) \<le> of_int (HEIGHT - radius ?b2)"
    by (rule y_top_bottom_walls_bounds) (simp add: r2 assms)
  ultimately show ?thesis
    by (simp add: x_update r1 r2) (simp add: update_def r2)
qed

lemma radius_new_ball: "radius (new_ball WIDTH HEIGHT create_pen d) = rand_radius d"
  by (simp add: new_ball_def Ball_init_def Let_def)

lemma new_ball_in_bounds:
  assumes "2 * rand_radius d \<le> WIDTH" and "2 * rand_radius d \<le> HEIGHT"
  shows "of_int (rand_radius d) \<le> x (new_ball WIDTH HEIGHT create_pen d) \<and>
         x (new_ball WIDTH HEIGHT create_pen d) \<le> of_int (WIDTH - rand_radius d) \<and>
         of_int (rand_radius d) \<le> y (new_ball WIDTH HEIGHT create_pen d) \<and>
         y (new_ball WIDTH HEIGHT create_pen d) \<le> of_int (HEIGHT - rand_radius d)"
proof -
  have "rand_radius d \<le> WIDTH div 2 \<and> WIDTH div 2 \<le> WIDTH - rand_radius d \<and>
        rand_radius d \<le> HEIGHT div 2 \<and> HEIGHT div 2 \<le> HEIGHT - rand_radius d"
    using assms by linarith
  then show ?thesis
    by (simp only: new_ball_def Ball_init_def Let_def ball.simps of_int_le_iff)
qed

text \<open>The exact invariant: no slack is needed when the arithmetic is exact.\<close>

lemma update_iter_in_bounds:
  assumes "2 * rand_radius d \<le> WIDTH" and "2 * rand_radius d \<le> HEIGHT"
  shows "of_int (rand_radius d) \<le> x ((update WIDTH HEIGHT ^^ n) (new_ball WIDTH HEIGHT create_pen d)) \<and>
         x ((update WIDTH HEIGHT ^^ n) (new_ball WIDTH HEIGHT create_pen d)) \<le> of_int (WIDTH - rand_radius d) \<and>
         of_int (rand_radius d) \<le> y ((update WIDTH HEIGHT ^^ n) (new_ball WIDTH HEIGHT create_pen d)) \<and>
         y ((update WIDTH HEIGHT ^^ n) (new_ball WIDTH HEIGHT create_pen d)) \<le> of_int (HEIGHT - rand_radius d)"
proof (cases n)
  case 0
  then show ?thesis
    using new_ball_in_bounds [OF assms, of create_pen] by simp
next
  case (Suc m)
  let ?b = "(update WIDTH HEIGHT ^^ m) (new_ball WIDTH HEIGHT create_pen d)"
  have rm: "radius ?b = rand_radius d"
    by (simp add: radius_update_iter radius_new_ball)
  show ?thesis
    using update_in_bounds [of ?b WIDTH HEIGHT] assms by (simp add: Suc rm)
qed

text \<open>
  Claim C1. For a ball created by \<open>add_ball\<close> whose diameter fits the screen in both
  directions (\<open>2 * radius \<le> WIDTH\<close> and \<open>2 * radius \<le> HEIGHT\<close>), after any number \<open>n\<close>
  of \<open>update\<close> calls the radius is the one it was created with and the position satisfies
  \<open>radius - 0.0001 \<le> x \<le> WIDTH - radius + 0.0001\<close> and
  \<open>radius - 0.0001 \<le> y \<le> HEIGHT - radius + 0.0001\<close>.
\<close>

theorem update_keeps_position_in_bounds:
  assumes "2 * rand_radius d \<le> WIDTH" and "2 * rand_radius d \<le> HEIGHT"
  shows "radius ((update WIDTH HEIGHT ^^ n) (new_ball WIDTH HEIGHT create_pen d)) = rand_radius d \<and>
         of_int (rand_radius d) - 0.0001 \<le> x ((update WIDTH HEIGHT ^^ n) (new_ball WIDTH HEIGHT create_pen d)) \<and>
         x ((update WIDTH HEIGHT ^^ n) (new_ball WIDTH HEIGHT create_pen d)) \<le> of_int WIDTH - of_int (rand_radius d) + 0.0001 \<and>
         of_int (rand_radius d) - 0.0001 \<le> y ((update WIDTH HEIGHT ^^ n) (new_ball WIDTH HEIGHT create_pen d)) \<and>
         y ((update WIDTH HEIGHT ^^ n) (new_ball WIDTH HEIGHT create_pen d)) \<le> of_int HEIGHT - of_int (rand_radius d) + 0.0001"
proof -
  have "radius ((update WIDTH HEIGHT ^^ n) (new_ball WIDTH HEIGHT create_pen d)) = rand_radius d"
    by (simp add: radius_update_iter radius_new_ball)
  then show ?thesis
    using update_iter_in_bounds [OF assms, of n create_pen] by simp
qed

theorem update_keeps_position_in_bounds_witness:
  "2 * rand_radius slow_draw \<le> 320 \<and> 2 * rand_radius slow_draw \<le> 240 \<and>
   radius ((update 320 240 ^^ 106) (new_ball 320 240 rgb_pen slow_draw)) = 15 \<and>
   15 - 0.0001 \<le> x ((update 320 240 ^^ 106) (new_ball 320 240 rgb_pen slow_draw)) \<and>
   x ((update 320 240 ^^ 106) (new_ball 320 240 rgb_pen slow_draw)) \<le> 320 - 15 + 0.0001 \<and>
   15 - 0.0001 \<le> y ((update 320 240 ^^ 106) (new_ball 320 240 rgb_pen slow_draw)) \<and>
   y ((update 320 240 ^^ 106) (new_ball 320 240 rgb_pen slow_draw)) \<le> 240 - 15 + 0.0001"
proof -
  have r: "rand_radius slow_draw = 15"
    by (simp add: slow_draw_def)
  show ?thesis
    using update_keeps_position_in_bounds [of slow_draw 320 240 106 rgb_pen]
    by (simp add: r)
qed

subsection \<open>A bounce off the left wall\<close>

text \<open>
  Claim C2. For a ball with \<open>vx < 0\<close> whose step makes \<open>x - radius < 0\<close>, after the
  \<open>update\<close> the x-velocity is \<open>- 0.95\<close> times the old one, hence positive and of
  magnitude exactly 0.95 times the old magnitude, and the x-position is exactly the radius.
  The dampening of every ball is the 0.95 its constructor stores.
\<close>

theorem left_wall_bounce:
  assumes "dampening b = 0.95" and "vx b < 0" and "x b + vx b - of_int (radius b) < 0"
  shows "vx (update WIDTH HEIGHT b) = - 0.95 * vx b \<and>
         0 < vx (update WIDTH HEIGHT b) \<and>
         \<bar>vx (update WIDTH HEIGHT b)\<bar> = 0.95 * \<bar>vx b\<bar> \<and>
         x (update WIDTH HEIGHT b) = of_int (radius b)"
  using assms(2,3)
  by (simp add: x_update vx_update left_right_walls_fields apply_velocity_fields abs_mult
      assms(1) mult_less_0_iff)

theorem left_wall_bounce_witness:
  "dampening left_edge_ball = 0.95 \<and> vx left_edge_ball < 0 \<and>
   x left_edge_ball + vx left_edge_ball - of_int (radius left_edge_ball) < 0 \<and>
   vx (update 320 240 left_edge_ball) = 1.9 \<and>
   x (update 320 240 left_edge_ball) = 5"
proof -
  have h: "dampening left_edge_ball = 0.95" "vx left_edge_ball < 0"
    "x left_edge_ball + vx left_edge_ball - of_int (radius left_edge_ball) < 0"
    by (simp_all add: left_edge_ball_def Ball_init_def)
  show ?thesis
    using h left_wall_bounce [OF h, of 320 240]
    by (simp add: left_edge_ball_def Ball_init_def)
qed

subsection \<open>The order of the two wall blocks\<close>

text \<open>
  Claim C7. For every ball state, the step that checks the top and bottom walls before
  the left and right walls returns exactly the state that \<open>update\<close> returns: all of
  \<open>x\<close>, \<open>y\<close>, \<open>vx\<close>, \<open>vy\<close> and the other fields agree, also when both blocks fire.
\<close>

theorem update_wall_order_irrelevant:
  "update_y_before_x WIDTH HEIGHT b = update WIDTH HEIGHT b"
  by (simp add: update_def update_y_before_x_def left_right_walls_fields
      top_bottom_walls_fields apply_velocity_fields split del: if_split cong: if_cong)


subsection \<open>Removing balls\<close>

text \<open>\<open>remove_ball\<close> never raises: the guard keeps \<open>pop\<close> away from the empty list.\<close>

lemma remove_ball_eq: "remove_ball g = Inr (g\<lparr>balls := butlast (balls g)\<rparr>)"
  by (simp add: remove_ball_def pop_def)

text \<open>
  Claim C8. \<open>remove_ball\<close> on a state with no balls raises no error and returns the very
  same state: the list stays empty and the timestamp is untouched.
\<close>

theorem remove_ball_empty_noop: "balls g = [] \<Longrightarrow> remove_ball g = Inr g"
  by (simp add: remove_ball_def)

theorem remove_ball_empty_noop_witness:
  "balls \<lparr>balls = [] :: unit ball list, last_press_time = 7\<rparr> = [] \<and>
   remove_ball \<lparr>balls = [] :: unit ball list, last_press_time = 7\<rparr> =
     Inr \<lparr>balls = [], last_press_time = 7\<rparr>"
  using remove_ball_empty_noop [of "\<lparr>balls = [] :: unit ball list, last_press_time = 7\<rparr>"]
  by simp

subsection \<open>Frame conditions\<close>

text \<open>
  Claim C9. \<open>update\<close> leaves the radius, the pen and the dampening of a ball as they
  were. \<open>add_ball\<close> keeps every ball of the list (the old list is a prefix of the new
  one), \<open>remove_ball\<close> succeeds and keeps the balls that remain, and so does
  \<open>remove_all_balls\<close>, whose result has no ball.
\<close>

theorem update_and_list_operations_frame:
  "radius (update WIDTH HEIGHT b) = radius b \<and>
   pen (update WIDTH HEIGHT b) = pen b \<and>
   dampening (update WIDTH HEIGHT b) = dampening b \<and>
   prefix (balls g) (balls (add_ball WIDTH HEIGHT create_pen d g)) \<and>
   (\<exists>g1. remove_ball g = Inr g1 \<and> prefix (balls g1) (balls g)) \<and>
   prefix (balls (remove_all_balls g)) (balls g) \<and> balls (remove_all_balls g) = []"
  by (simp add: radius_update pen_update dampening_update add_ball_def remove_ball_eq
      remove_all_balls_def prefixeq_butlast)

subsection \<open>Speed never grows\<close>

lemma abs_vx_update:
  assumes "dampening b = 0.95"
  shows "\<bar>vx (update WIDTH HEIGHT b)\<bar> =
           (if x b + vx b - of_int (radius b) < 0 \<or> x b + vx b + of_int (radius b) > of_int WIDTH
            then 0.95 * \<bar>vx b\<bar> else \<bar>vx b\<bar>)"
  by (simp add: vx_update left_right_walls_fields apply_velocity_fields abs_mult assms)

lemma abs_vy_update:
  assumes "dampening b = 0.95"
  shows "\<bar>vy (update WIDTH HEIGHT b)\<bar> =
           (if y b + vy b - of_int (radius b) < 0 \<or> y b + vy b + of_int (radius b) > of_int HEIGHT
            then 0.95 * \<bar>vy b\<bar> else \<bar>vy b\<bar>)"
  by (simp add: update_def top_bottom_walls_fields left_right_walls_fields
      apply_velocity_fields abs_mult assms)

lemma abs_vx_update_le:
  assumes "dampening b = 0.95"
  shows "\<bar>vx (update WIDTH HEIGHT b)\<bar> \<le> \<bar>vx b\<bar>"
  by (simp add: abs_vx_update [OF assms])

lemma abs_vy_update_le:
  assumes "dampening b = 0.95"
  shows "\<bar>vy (update WIDTH HEIGHT b)\<bar> \<le> \<bar>vy b\<bar>"
  by (simp add: abs_vy_update [OF assms])

text \<open>A ball created with speed 1 on the y-axis reaches the top wall in its 106th step.\<close>

lemma slow_draw_contract: "random_contract (BALL_PENS rgb_pen) slow_draw"
  by (simp add: random_contract_def slow_draw_def length_BALL_PENS)

lemma new_ball_slow_draw:
  "new_ball 320 240 rgb_pen slow_draw =
     \<lparr>x = 160, y = 120, radius = 15, vx = 1, vy = - 1, pen = (102, 0, 153),
      dampening = 0.95\<rparr>"
  by (simp add: new_ball_def slow_draw_def Ball_init_def BALL_PENS_eq colors_def rgb_pen_def)

lemma slow_ball_after_106:
  "vy ((update 320 240 ^^ 106)
     \<lparr>x = 160, y = 120, radius = 15, vx = 1, vy = - 1, pen = (102::nat, 0::nat, 153::nat),
      dampening = 0.95\<rparr>) = 0.95"
  by (simp add: eval_nat_numeral update_def apply_velocity_def left_right_walls_def
      top_bottom_walls_def Let_def)

lemma speed_may_fall_below_floor:
  "\<exists>d k. random_contract (BALL_PENS rgb_pen) d \<and>
      1 \<le> \<bar>vy (new_ball 320 240 rgb_pen d)\<bar> \<and>
      \<bar>vy ((update 320 240 ^^ k) (new_ball 320 240 rgb_pen d))\<bar> < 1"
proof (intro exI conjI)
  show "random_contract (BALL_PENS rgb_pen) slow_draw"
    by (rule slow_draw_contract)
  show "1 \<le> \<bar>vy (new_ball 320 240 rgb_pen slow_draw)\<bar>"
    by (simp add: new_ball_slow_draw)
  show "\<bar>vy ((update 320 240 ^^ 106) (new_ball 320 240 rgb_pen slow_draw))\<bar> < 1"
    by (simp only: new_ball_slow_draw slow_ball_after_106) simp
qed

text \<open>
  Claim C10. For a ball with the constructor's dampening 0.95, one \<open>update\<close> leaves the
  speed on an axis as it was when that axis' wall test does not fire, and multiplies it
  by exactly 0.95 when it does; so no \<open>update\<close> increases a speed, the speeds along a run
  of updates never grow, and a ball created with speed at least 1 can end below 1.
\<close>

theorem update_never_speeds_up:
  assumes "dampening b = 0.95"
  shows
    "\<bar>vx (update WIDTH HEIGHT b)\<bar> =
       (if x b + vx b - of_int (radius b) < 0 \<or> x b + vx b + of_int (radius b) > of_int WIDTH
        then 0.95 * \<bar>vx b\<bar> else \<bar>vx b\<bar>) \<and>
     \<bar>vy (update WIDTH HEIGHT b)\<bar> =
       (if y b + vy b - of_int (radius b) < 0 \<or> y b + vy b + of_int (radius b) > of_int HEIGHT
        then 0.95 * \<bar>vy b\<bar> else \<bar>vy b\<bar>) \<and>
     \<bar>vx (update WIDTH HEIGHT b)\<bar> \<le> \<bar>vx b\<bar> \<and>
     \<bar>vy (update WIDTH HEIGHT b)\<bar> \<le> \<bar>vy b\<bar> \<and>
     \<bar>vx ((update WIDTH HEIGHT ^^ Suc n) b)\<bar> \<le> \<bar>vx ((update WIDTH HEIGHT ^^ n) b)\<bar> \<and>
     \<bar>vy ((update WIDTH HEIGHT ^^ Suc n) b)\<bar> \<le> \<bar>vy ((update WIDTH HEIGHT ^^ n) b)\<bar> \<and>
     (\<exists>d k. random_contract (BALL_PENS rgb_pen) d \<and>
        1 \<le> \<bar>vy (new_ball 320 240 rgb_pen d)\<bar> \<and>
        \<bar>vy ((update 320 240 ^^ k) (new_ball 320 240 rgb_pen d))\<bar> < 1)"
proof -
  have dn: "dampening ((update WIDTH HEIGHT ^^ n) b) = 0.95"
    by (simp only: dampening_update_iter assms)
  have "\<bar>vx ((update WIDTH HEIGHT ^^ Suc n) b)\<bar> \<le> \<bar>vx ((update WIDTH HEIGHT ^^ n) b)\<bar>"
    using abs_vx_update_le [OF dn] by simp
  moreover have "\<bar>vy ((update WIDTH HEIGHT ^^ Suc n) b)\<bar> \<le> \<bar>vy ((update WIDTH HEIGHT ^^ n) b)\<bar>"
    using abs_vy_update_le [OF dn] by simp
  ultimately show ?thesis
    using abs_vx_update [OF assms, of WIDTH HEIGHT] abs_vy_update [OF assms, of WIDTH HEIGHT]
      abs_vx_update_le [OF assms, of WIDTH HEIGHT] abs_vy_update_le [OF assms, of WIDTH HEIGHT]
      speed_may_fall_below_floor
    by blast
qed

theorem update_never_speeds_up_witness:
  "dampening right_edge_ball = 0.95 \<and>
   \<bar>vx right_edge_ball\<bar> = 4 \<and> \<bar>vx (update 320 240 right_edge_ball)\<bar> = 3.8 \<and>
   \<bar>vy right_edge_ball\<bar> = 1 \<and> \<bar>vy (update 320 240 right_edge_ball)\<bar> = 1"
proof -
  have h: "dampening right_edge_ball = 0.95"
    by (simp add: right_edge_ball_def Ball_init_def)
  have "\<bar>vx (update 320 240 right_edge_ball)\<bar> =
       (if x right_edge_ball + vx right_edge_ball - of_int (radius right_edge_ball) < 0 \<or>
           x right_edge_ball + vx right_edge_ball + of_int (radius right_edge_ball) > of_int 320
        then 0.95 * \<bar>vx right_edge_ball\<bar> else \<bar>vx right_edge_ball\<bar>)"
    and "\<bar>vy (update 320 240 right_edge_ball)\<bar> =
       (if y right_edge_ball + vy right_edge_ball - of_int (radius right_edge_ball) < 0 \<or>
           y right_edge_ball + vy right_edge_ball + of_int (radius right_edge_ball) > of_int 240
        then 0.95 * \<bar>vy right_edge_ball\<bar> else \<bar>vy right_edge_ball\<bar>)"
    using update_never_speeds_up [OF h, of 320 240 0] by blast+
  then show ?thesis
    by (simp add: right_edge_ball_def Ball_init_def)
qed

subsection \<open>The list of balls is a stack\<close>

lemma balls_fold_add_ball:
  "balls (fold (\<lambda>i. add_ball WIDTH HEIGHT create_pen (rng i)) js g) =
     balls g @ map (\<lambda>i. new_ball WIDTH HEIGHT create_pen (rng i)) js"
  by (induction js arbitrary: g) (simp_all add: add_ball_def)

lemma balls_add_multiple_balls:
  "balls (add_multiple_balls WIDTH HEIGHT create_pen count rng g) =
     balls g @ map (\<lambda>i. new_ball WIDTH HEIGHT create_pen (rng i)) [0..<nat count]"
  by (simp add: add_multiple_balls_def balls_fold_add_ball)

lemma last_press_time_fold_add_ball:
  "last_press_time (fold (\<lambda>i. add_ball WIDTH HEIGHT create_pen (rng i)) js g) =
     last_press_time g"
  by (induction js arbitrary: g) (simp_all add: add_ball_def)

lemma last_press_time_add_multiple_balls:
  "last_press_time (add_multiple_balls WIDTH HEIGHT create_pen count rng g) = last_press_time g"
  by (simp add: add_multiple_balls_def last_press_time_fold_add_ball)

lemma remove_ball_times_eq:
  "remove_ball_times k g = Inr (g\<lparr>balls := take (length (balls g) - k) (balls g)\<rparr>)"
proof (induction k arbitrary: g)
  case 0
  then show ?case by simp
next
  case (Suc k)
  have "take (length (balls g) - Suc 0 - k) (butlast (balls g)) =
        take (length (balls g) - Suc k) (balls g)"
    by (simp add: butlast_conv_take min_def)
  then show ?case
    by (simp add: remove_ball_eq Suc.IH)
qed

text \<open>
  Claim C5. \<open>add_multiple_balls(count)\<close> appends exactly \<open>count\<close> balls, the \<open>i\<close>-th built
  from the \<open>i\<close>-th draw, in order; on an empty list \<open>add_multiple_balls(5)\<close> gives length
  5. \<open>remove_ball\<close> removes exactly the ball appended last. After \<open>k \<le> count\<close> removals
  the balls with creation index below \<open>count - k\<close> are left, so the removals go in
  strictly decreasing creation index, and 5 removals after \<open>add_multiple_balls(5)\<close> on
  an empty list leave it empty.
\<close>

theorem add_multiple_then_remove_is_stack:
  "balls (add_multiple_balls WIDTH HEIGHT create_pen count rng g) =
     balls g @ map (\<lambda>i. new_ball WIDTH HEIGHT create_pen (rng i)) [0..<nat count] \<and>
   length (balls (add_multiple_balls WIDTH HEIGHT create_pen 5 rng (g\<lparr>balls := []\<rparr>))) = 5 \<and>
   remove_ball (g\<lparr>balls := bs @ [b]\<rparr>) = Inr (g\<lparr>balls := bs\<rparr>) \<and>
   (\<forall>k. k \<le> nat count \<longrightarrow>
      (\<exists>g1. remove_ball_times k (add_multiple_balls WIDTH HEIGHT create_pen count rng g) = Inr g1 \<and>
         balls g1 =
           balls g @ map (\<lambda>i. new_ball WIDTH HEIGHT create_pen (rng i)) [0..<nat count - k])) \<and>
   (\<exists>g1. remove_ball_times 5
            (add_multiple_balls WIDTH HEIGHT create_pen 5 rng (g\<lparr>balls := []\<rparr>)) = Inr g1 \<and>
      balls g1 = [])"
proof (intro conjI allI impI)
  show "balls (add_multiple_balls WIDTH HEIGHT create_pen count rng g) =
     balls g @ map (\<lambda>i. new_ball WIDTH HEIGHT create_pen (rng i)) [0..<nat count]"
    by (rule balls_add_multiple_balls)
  show "length (balls (add_multiple_balls WIDTH HEIGHT create_pen 5 rng (g\<lparr>balls := []\<rparr>))) = 5"
    by (simp add: balls_add_multiple_balls)
  show "remove_ball (g\<lparr>balls := bs @ [b]\<rparr>) = Inr (g\<lparr>balls := bs\<rparr>)"
    by (simp add: remove_ball_eq)
  show "\<exists>g1. remove_ball_times k (add_multiple_balls WIDTH HEIGHT create_pen count rng g) = Inr g1 \<and>
         balls g1 =
           balls g @ map (\<lambda>i. new_ball WIDTH HEIGHT create_pen (rng i)) [0..<nat count - k]"
    if "k \<le> nat count" for k
    using that by (simp add: remove_ball_times_eq balls_add_multiple_balls take_map)
  show "\<exists>g1. remove_ball_times 5
            (add_multiple_balls WIDTH HEIGHT create_pen 5 rng (g\<lparr>balls := []\<rparr>)) = Inr g1 \<and>
      balls g1 = []"
    by (simp add: remove_ball_times_eq balls_add_multiple_balls)
qed

theorem add_multiple_then_remove_is_stack_witness:
  "(2::nat) \<le> nat 5 \<and>
   (\<exists>g1. remove_ball_times 2 (add_multiple_balls 320 240 rgb_pen 5 steady_rng start_game) = Inr g1 \<and>
      balls g1 = balls start_game @ map (\<lambda>i. new_ball 320 240 rgb_pen (steady_rng i)) [0..<3])"
proof -
  have "\<forall>k. k \<le> nat 5 \<longrightarrow>
      (\<exists>g1. remove_ball_times k (add_multiple_balls 320 240 rgb_pen 5 steady_rng start_game) = Inr g1 \<and>
         balls g1 =
           balls start_game @ map (\<lambda>i. new_ball 320 240 rgb_pen (steady_rng i)) [0..<nat 5 - k])"
    by (rule add_multiple_then_remove_is_stack
        [of 320 240 rgb_pen 5 steady_rng start_game,
          THEN conjunct2, THEN conjunct2, THEN conjunct2, THEN conjunct1])
  from this [rule_format, of 2] show ?thesis
    by simp
qed

subsection \<open>A new ball\<close>

text \<open>
  Claim C6. When the generator keeps its contract, the ball that \<open>add_ball\<close> appends has
  an integer radius in \<open>[5, 15]\<close>, velocity components with \<open>1 \<le> |vx| \<le> 4\<close> and
  \<open>1 \<le> |vy| \<le> 4\<close> (so neither is zero), the position \<open>(WIDTH // 2, HEIGHT // 2)\<close>, and a
  pen of the palette, which has six entries.
\<close>

theorem add_ball_new_ball_properties:
  assumes "random_contract (BALL_PENS create_pen) d"
  shows
    "balls (add_ball WIDTH HEIGHT create_pen d g) = balls g @ [new_ball WIDTH HEIGHT create_pen d] \<and>
     5 \<le> radius (new_ball WIDTH HEIGHT create_pen d) \<and>
     radius (new_ball WIDTH HEIGHT create_pen d) \<le> 15 \<and>
     1 \<le> \<bar>vx (new_ball WIDTH HEIGHT create_pen d)\<bar> \<and>
     \<bar>vx (new_ball WIDTH HEIGHT create_pen d)\<bar> \<le> 4 \<and>
     1 \<le> \<bar>vy (new_ball WIDTH HEIGHT create_pen d)\<bar> \<and>
     \<bar>vy (new_ball WIDTH HEIGHT create_pen d)\<bar> \<le> 4 \<and>
     vx (new_ball WIDTH HEIGHT create_pen d) \<noteq> 0 \<and>
     vy (new_ball WIDTH HEIGHT create_pen d) \<noteq> 0 \<and>
     x (new_ball WIDTH HEIGHT create_pen d) = of_int (WIDTH div 2) \<and>
     y (new_ball WIDTH HEIGHT create_pen d) = of_int (HEIGHT div 2) \<and>
     pen (new_ball WIDTH HEIGHT create_pen d) \<in> set (BALL_PENS create_pen) \<and>
     length (BALL_PENS create_pen) = 6"
proof -
  from assms have k: "rand_pen d < length (BALL_PENS create_pen)"
    by (simp add: random_contract_def)
  have p: "pen (new_ball WIDTH HEIGHT create_pen d) \<in> set (BALL_PENS create_pen)"
    using nth_mem [OF k] by (simp add: new_ball_def Ball_init_def Let_def)
  have v: "1 \<le> \<bar>vx (new_ball WIDTH HEIGHT create_pen d)\<bar> \<and>
     \<bar>vx (new_ball WIDTH HEIGHT create_pen d)\<bar> \<le> 4 \<and>
     1 \<le> \<bar>vy (new_ball WIDTH HEIGHT create_pen d)\<bar> \<and>
     \<bar>vy (new_ball WIDTH HEIGHT create_pen d)\<bar> \<le> 4"
    using assms by (simp add: random_contract_def new_ball_def Ball_init_def Let_def)
  then have nz: "vx (new_ball WIDTH HEIGHT create_pen d) \<noteq> 0 \<and>
     vy (new_ball WIDTH HEIGHT create_pen d) \<noteq> 0"
    by linarith
  have r: "5 \<le> radius (new_ball WIDTH HEIGHT create_pen d) \<and>
     radius (new_ball WIDTH HEIGHT create_pen d) \<le> 15"
    using assms by (simp add: random_contract_def new_ball_def Ball_init_def Let_def)
  have xy: "x (new_ball WIDTH HEIGHT create_pen d) = of_int (WIDTH div 2) \<and>
     y (new_ball WIDTH HEIGHT create_pen d) = of_int (HEIGHT div 2)"
    by (simp add: new_ball_def Ball_init_def Let_def)
  show ?thesis
    using p v nz r xy by (simp add: add_ball_def length_BALL_PENS)
qed

theorem add_ball_new_ball_properties_witness:
  "random_contract (BALL_PENS rgb_pen) slow_draw \<and>
   balls (add_ball 320 240 rgb_pen slow_draw start_game) =
     balls start_game @ [new_ball 320 240 rgb_pen slow_draw] \<and>
   radius (new_ball 320 240 rgb_pen slow_draw) = 15 \<and>
   vx (new_ball 320 240 rgb_pen slow_draw) = 1 \<and>
   vy (new_ball 320 240 rgb_pen slow_draw) = - 1 \<and>
   x (new_ball 320 240 rgb_pen slow_draw) = 160 \<and>
   y (new_ball 320 240 rgb_pen slow_draw) = 120 \<and>
   pen (new_ball 320 240 rgb_pen slow_draw) \<in> set (BALL_PENS rgb_pen)"
  using slow_draw_contract
    add_ball_new_ball_properties [OF slow_draw_contract, of 320 240 start_game]
  by (simp add: new_ball_slow_draw)


subsection \<open>The input step\<close>

lemma first_active_cases:
  "first_active bt =
     (if button_up bt then Some AddOne
      else if button_down bt then Some RemoveOne
      else if button_left bt then Some ClearAll
      else if button_right bt then Some AddHundred
      else None)"
  by (simp add: first_active_def priority_order_def)

lemma execute_total: "\<exists>g1. execute WIDTH HEIGHT create_pen rng c g = Inr g1"
  by (cases c) (simp_all add: remove_ball_eq)

lemma input_handling_closed:
  assumes "elapsed inp g \<le> DEBOUNCE_TIME"
  shows "input_handling WIDTH HEIGHT create_pen inp g = Inr g"
  using assms by (simp add: input_handling_def elapsed_def Let_def)

lemma input_handling_open:
  assumes "DEBOUNCE_TIME < elapsed inp g"
  shows "input_handling WIDTH HEIGHT create_pen inp g =
     (case first_active (pressed inp) of
        None \<Rightarrow> Inr g
      | Some c \<Rightarrow>
          (case execute WIDTH HEIGHT create_pen (rnd inp) c g of
             Inl e \<Rightarrow> Inl e
           | Inr g1 \<Rightarrow> Inr (g1\<lparr>last_press_time := of_int (ticks_ms inp) / 1000\<rparr>)))"
  using assms by (simp add: input_handling_def elapsed_def Let_def first_active_cases)

text \<open>Neither the input step nor the whole loop body can raise.\<close>

lemma input_handling_total: "\<exists>g1. input_handling WIDTH HEIGHT create_pen inp g = Inr g1"
proof (cases "DEBOUNCE_TIME < elapsed inp g")
  case True
  show ?thesis
  proof (cases "first_active (pressed inp)")
    case None
    with True show ?thesis
      by (simp add: input_handling_open)
  next
    case (Some c)
    obtain g0 where "execute WIDTH HEIGHT create_pen (rnd inp) c g = Inr g0"
      using execute_total by blast
    with True Some show ?thesis
      by (simp add: input_handling_open)
  qed
next
  case False
  then show ?thesis
    by (simp add: input_handling_closed)
qed

lemma loop_body_total: "\<exists>g1. loop_body WIDTH HEIGHT create_pen inp g = Inr g1"
proof -
  obtain g0 where "input_handling WIDTH HEIGHT create_pen inp g = Inr g0"
    using input_handling_total by blast
  then show ?thesis
    by (simp add: loop_body_def)
qed

lemma last_press_time_start_game: "last_press_time start_game = 0"
  by (simp add: start_game_def initial_game_def last_press_time_add_multiple_balls)

lemma elapsed_boundary_input: "elapsed boundary_input start_game = 0.2"
  by (simp add: elapsed_def boundary_input_def last_press_time_start_game)

lemma elapsed_late_input: "elapsed late_input start_game = 0.25"
  by (simp add: elapsed_def late_input_def last_press_time_start_game)

text \<open>
  Claim C3, as the specification states it, puts the gate at \<open>elapsed \<ge> 0.2\<close>. The loop
  tests \<open>elapsed > DEBOUNCE_TIME\<close>: in the program's initial state (timestamp 0.0), with
  the counter at 200 ms and UP held, the elapsed time is 0.2, yet no ball is added and
  the timestamp is not reset.
\<close>

theorem debounce_boundary_counterexample:
  "DEBOUNCE_TIME \<le> elapsed boundary_input start_game \<and>
   button_up (pressed boundary_input) \<and>
   input_handling 320 240 rgb_pen boundary_input start_game = Inr start_game \<and>
   input_handling 320 240 rgb_pen boundary_input start_game \<noteq>
     Inr ((add_ball 320 240 rgb_pen (rnd boundary_input 0) start_game)
            \<lparr>last_press_time := of_int (ticks_ms boundary_input) / 1000\<rparr>)"
proof -
  have e: "elapsed boundary_input start_game \<le> DEBOUNCE_TIME"
    by (simp add: elapsed_boundary_input DEBOUNCE_TIME_def)
  have same: "input_handling 320 240 rgb_pen boundary_input start_game = Inr start_game"
    by (rule input_handling_closed [OF e])
  have "length (balls ((add_ball 320 240 rgb_pen (rnd boundary_input 0) start_game)
            \<lparr>last_press_time := of_int (ticks_ms boundary_input) / 1000\<rparr>)) \<noteq>
        length (balls start_game)"
    by (simp add: add_ball_def)
  then have "start_game \<noteq> (add_ball 320 240 rgb_pen (rnd boundary_input 0) start_game)
            \<lparr>last_press_time := of_int (ticks_ms boundary_input) / 1000\<rparr>"
    by metis
  then show ?thesis
    by (simp add: same elapsed_boundary_input DEBOUNCE_TIME_def) (simp add: boundary_input_def)
qed

text \<open>
  Claim C3, amended. A button command runs in a pass of the loop if and only if the
  elapsed time since the last accepted command is strictly greater than the 0.2 s
  window. When \<open>elapsed > 0.2\<close> the inputs are polled: with no button pressed nothing
  changes, and with a button pressed its command runs and the timestamp becomes the
  current time. When \<open>elapsed \<le> 0.2\<close> the state is returned unchanged whatever the
  buttons are; so a command that comes at most 0.2 s after an accepted one is dropped.
\<close>

theorem debounce_gate_strict:
  "(elapsed inp g \<le> DEBOUNCE_TIME \<longrightarrow>
      input_handling WIDTH HEIGHT create_pen inp g = Inr g) \<and>
   (first_active (pressed inp) = None) =
      (\<not> button_up (pressed inp) \<and> \<not> button_down (pressed inp) \<and>
       \<not> button_left (pressed inp) \<and> \<not> button_right (pressed inp)) \<and>
   (DEBOUNCE_TIME < elapsed inp g \<and> first_active (pressed inp) = None \<longrightarrow>
      input_handling WIDTH HEIGHT create_pen inp g = Inr g) \<and>
   (DEBOUNCE_TIME < elapsed inp g \<and> first_active (pressed inp) = Some c \<longrightarrow>
      (\<exists>g1. execute WIDTH HEIGHT create_pen (rnd inp) c g = Inr g1 \<and>
         input_handling WIDTH HEIGHT create_pen inp g =
           Inr (g1\<lparr>last_press_time := of_int (ticks_ms inp) / 1000\<rparr>))) \<and>
   (input_handling WIDTH HEIGHT create_pen inp g \<noteq> Inr g \<longrightarrow>
      DEBOUNCE_TIME < elapsed inp g \<and> first_active (pressed inp) \<noteq> None) \<and>
   (DEBOUNCE_TIME < elapsed inp g \<and> first_active (pressed inp) \<noteq> None \<and>
    of_int (ticks_ms inp2) / 1000 - of_int (ticks_ms inp) / 1000 \<le> DEBOUNCE_TIME \<longrightarrow>
      (\<exists>g1. input_handling WIDTH HEIGHT create_pen inp g = Inr g1 \<and>
         last_press_time g1 = of_int (ticks_ms inp) / 1000 \<and>
         input_handling WIDTH HEIGHT create_pen inp2 g1 = Inr g1))"
proof (intro conjI impI)
  show "input_handling WIDTH HEIGHT create_pen inp g = Inr g"
    if "elapsed inp g \<le> DEBOUNCE_TIME"
    by (rule input_handling_closed [OF that])
  show "(first_active (pressed inp) = None) =
      (\<not> button_up (pressed inp) \<and> \<not> button_down (pressed inp) \<and>
       \<not> button_left (pressed inp) \<and> \<not> button_right (pressed inp))"
    by (simp add: first_active_cases)
  show "input_handling WIDTH HEIGHT create_pen inp g = Inr g"
    if "DEBOUNCE_TIME < elapsed inp g \<and> first_active (pressed inp) = None"
    using that by (simp add: input_handling_open)
  show "\<exists>g1. execute WIDTH HEIGHT create_pen (rnd inp) c g = Inr g1 \<and>
         input_handling WIDTH HEIGHT create_pen inp g =
           Inr (g1\<lparr>last_press_time := of_int (ticks_ms inp) / 1000\<rparr>)"
    if "DEBOUNCE_TIME < elapsed inp g \<and> first_active (pressed inp) = Some c"
  proof -
    obtain g1 where g1: "execute WIDTH HEIGHT create_pen (rnd inp) c g = Inr g1"
      using execute_total by blast
    with that show ?thesis
      by (simp add: input_handling_open)
  qed
  show "DEBOUNCE_TIME < elapsed inp g"
    if "input_handling WIDTH HEIGHT create_pen inp g \<noteq> Inr g"
    using that input_handling_closed [of inp g WIDTH HEIGHT create_pen] by fastforce
  show "first_active (pressed inp) \<noteq> None"
    if ne: "input_handling WIDTH HEIGHT create_pen inp g \<noteq> Inr g"
  proof
    assume none: "first_active (pressed inp) = None"
    show False
    proof (cases "DEBOUNCE_TIME < elapsed inp g")
      case True
      with none ne show False
        by (simp add: input_handling_open)
    next
      case False
      with ne show False
        by (simp add: input_handling_closed)
    qed
  qed
  show "\<exists>g1. input_handling WIDTH HEIGHT create_pen inp g = Inr g1 \<and>
         last_press_time g1 = of_int (ticks_ms inp) / 1000 \<and>
         input_handling WIDTH HEIGHT create_pen inp2 g1 = Inr g1"
    if h: "DEBOUNCE_TIME < elapsed inp g \<and> first_active (pressed inp) \<noteq> None \<and>
      of_int (ticks_ms inp2) / 1000 - of_int (ticks_ms inp) / 1000 \<le> DEBOUNCE_TIME"
  proof -
    from h obtain c where c: "first_active (pressed inp) = Some c"
      by blast
    obtain g0 where g0: "execute WIDTH HEIGHT create_pen (rnd inp) c g = Inr g0"
      using execute_total by blast
    let ?g1 = "g0\<lparr>last_press_time := of_int (ticks_ms inp) / 1000\<rparr>"
    have first: "input_handling WIDTH HEIGHT create_pen inp g = Inr ?g1"
      using h c g0 by (simp add: input_handling_open)
    have "elapsed inp2 ?g1 \<le> DEBOUNCE_TIME"
      using h by (simp add: elapsed_def)
    then have "input_handling WIDTH HEIGHT create_pen inp2 ?g1 = Inr ?g1"
      by (rule input_handling_closed)
    with first show ?thesis
      by simp
  qed
qed

theorem debounce_gate_strict_witness:
  "elapsed boundary_input start_game \<le> DEBOUNCE_TIME \<and>
   input_handling 320 240 rgb_pen boundary_input start_game = Inr start_game \<and>
   DEBOUNCE_TIME < elapsed late_input start_game \<and>
   first_active (pressed late_input) = Some AddOne \<and>
   (\<exists>g1. execute 320 240 rgb_pen (rnd late_input) AddOne start_game = Inr g1 \<and>
      input_handling 320 240 rgb_pen late_input start_game =
        Inr (g1\<lparr>last_press_time := of_int (ticks_ms late_input) / 1000\<rparr>)) \<and>
   of_int (ticks_ms second_input) / 1000 - of_int (ticks_ms late_input) / 1000
     \<le> DEBOUNCE_TIME \<and>
   (\<exists>g1. input_handling 320 240 rgb_pen late_input start_game = Inr g1 \<and>
      last_press_time g1 = of_int (ticks_ms late_input) / 1000 \<and>
      input_handling 320 240 rgb_pen second_input g1 = Inr g1)"
proof -
  have closed: "elapsed boundary_input start_game \<le> DEBOUNCE_TIME"
    by (simp add: elapsed_boundary_input DEBOUNCE_TIME_def)
  have opened: "DEBOUNCE_TIME < elapsed late_input start_game"
    by (simp add: elapsed_late_input DEBOUNCE_TIME_def)
  have cmd: "first_active (pressed late_input) = Some AddOne"
    by (simp add: first_active_cases late_input_def)
  have soon: "of_int (ticks_ms second_input) / 1000 - of_int (ticks_ms late_input) / 1000
     \<le> DEBOUNCE_TIME"
    by (simp add: second_input_def late_input_def DEBOUNCE_TIME_def)
  note at_boundary =
    debounce_gate_strict [of boundary_input start_game 320 240 rgb_pen AddOne second_input]
  note at_late =
    debounce_gate_strict [of late_input start_game 320 240 rgb_pen AddOne second_input]
  have "input_handling 320 240 rgb_pen boundary_input start_game = Inr start_game"
    using at_boundary closed by blast
  moreover have "\<exists>g1. execute 320 240 rgb_pen (rnd late_input) AddOne start_game = Inr g1 \<and>
      input_handling 320 240 rgb_pen late_input start_game =
        Inr (g1\<lparr>last_press_time := of_int (ticks_ms late_input) / 1000\<rparr>)"
    using at_late opened cmd by blast
  moreover have "\<exists>g1. input_handling 320 240 rgb_pen late_input start_game = Inr g1 \<and>
      last_press_time g1 = of_int (ticks_ms late_input) / 1000 \<and>
      input_handling 320 240 rgb_pen second_input g1 = Inr g1"
  proof -
    have "first_active (pressed late_input) \<noteq> None"
      by (simp add: cmd)
    with at_late opened soon show ?thesis
      by blast
  qed
  ultimately show ?thesis
    using closed opened cmd soon by blast
qed

text \<open>
  Claim C4. In a pass where the gate is open, the input step is the execution of at most
  one command: the first of add-one, remove-one, clear-all, add-hundred whose button is
  pressed, followed by the reset of the timestamp, or nothing when no button is pressed.
  The buttons after the first pressed one have no influence on the result.
\<close>

theorem first_pressed_button_wins:
  assumes "DEBOUNCE_TIME < elapsed inp g"
  shows
    "input_handling WIDTH HEIGHT create_pen inp g =
       (case first_active (pressed inp) of
          None \<Rightarrow> Inr g
        | Some c \<Rightarrow>
            (case execute WIDTH HEIGHT create_pen (rnd inp) c g of
               Inl e \<Rightarrow> Inl e
             | Inr g1 \<Rightarrow> Inr (g1\<lparr>last_press_time := of_int (ticks_ms inp) / 1000\<rparr>))) \<and>
     first_active (pressed inp) =
       (if button_up (pressed inp) then Some AddOne
        else if button_down (pressed inp) then Some RemoveOne
        else if button_left (pressed inp) then Some ClearAll
        else if button_right (pressed inp) then Some AddHundred
        else None) \<and>
     (\<forall>other. ticks_ms other = ticks_ms inp \<and> rnd other = rnd inp \<and>
        first_active (pressed other) = first_active (pressed inp) \<longrightarrow>
        input_handling WIDTH HEIGHT create_pen other g =
          input_handling WIDTH HEIGHT create_pen inp g)"
proof (intro conjI allI impI)
  show "input_handling WIDTH HEIGHT create_pen inp g =
       (case first_active (pressed inp) of
          None \<Rightarrow> Inr g
        | Some c \<Rightarrow>
            (case execute WIDTH HEIGHT create_pen (rnd inp) c g of
               Inl e \<Rightarrow> Inl e
             | Inr g1 \<Rightarrow> Inr (g1\<lparr>last_press_time := of_int (ticks_ms inp) / 1000\<rparr>)))"
    by (rule input_handling_open [OF assms])
  show "first_active (pressed inp) =
       (if button_up (pressed inp) then Some AddOne
        else if button_down (pressed inp) then Some RemoveOne
        else if button_left (pressed inp) then Some ClearAll
        else if button_right (pressed inp) then Some AddHundred
        else None)"
    by (rule first_active_cases)
  show "input_handling WIDTH HEIGHT create_pen other g =
          input_handling WIDTH HEIGHT create_pen inp g"
    if h: "ticks_ms other = ticks_ms inp \<and> rnd other = rnd inp \<and>
        first_active (pressed other) = first_active (pressed inp)"
    for other
  proof -
    from h have t: "ticks_ms other = ticks_ms inp" and r: "rnd other = rnd inp"
      and f: "first_active (pressed other) = first_active (pressed inp)"
      by simp_all
    from t assms have o: "DEBOUNCE_TIME < elapsed other g"
      by (simp add: elapsed_def)
    show ?thesis
      unfolding input_handling_open [OF o] input_handling_open [OF assms] t r f
      by (rule refl)
  qed
qed

theorem first_pressed_button_wins_witness:
  "DEBOUNCE_TIME < elapsed late_input start_game \<and>
   button_up (pressed late_input) \<and> button_down (pressed late_input) \<and>
   button_right (pressed late_input) \<and>
   first_active (pressed late_input) = Some AddOne \<and>
   input_handling 320 240 rgb_pen late_input start_game =
     Inr ((add_ball 320 240 rgb_pen (steady_rng 0) start_game)
            \<lparr>last_press_time := 0.25\<rparr>)"
proof -
  have opened: "DEBOUNCE_TIME < elapsed late_input start_game"
    by (simp add: elapsed_late_input DEBOUNCE_TIME_def)
  have "input_handling 320 240 rgb_pen late_input start_game =
       (case first_active (pressed late_input) of
          None \<Rightarrow> Inr start_game
        | Some c \<Rightarrow>
            (case execute 320 240 rgb_pen (rnd late_input) c start_game of
               Inl e \<Rightarrow> Inl e
             | Inr g1 \<Rightarrow> Inr (g1\<lparr>last_press_time := of_int (ticks_ms late_input) / 1000\<rparr>)))"
    and "first_active (pressed late_input) =
       (if button_up (pressed late_input) then Some AddOne
        else if button_down (pressed late_input) then Some RemoveOne
        else if button_left (pressed late_input) then Some ClearAll
        else if button_right (pressed late_input) then Some AddHundred
        else None)"
    using first_pressed_button_wins [OF opened, of 320 240 rgb_pen] by blast+
  then show ?thesis
    using opened by (simp add: late_input_def)
qed

end
